theory Spec2Isabelle
  imports Main
begin

section \<open>Cards (models/Card.js)\<close>

text \<open>
  A JavaScript number as the card code meets it: an integer, or \<open>NaN\<close> (what
  \<open>parseInt\<close> returns on a string with no leading digits). Integers are unbounded here;
  JavaScript rounds beyond \<open>2^53\<close>, which no tile of the deck reaches.
\<close>

datatype jsnum = Num int | NaN

text \<open>\<open>a === b\<close> on numbers: \<open>NaN\<close> is not equal to itself.\<close>

fun strictEq :: "jsnum \<Rightarrow> jsnum \<Rightarrow> bool" where
  "strictEq (Num a) (Num b) = (a = b)"
| "strictEq _ _ = False"

text \<open>\<open>String(n)\<close> for an integer or \<open>NaN\<close>, as the template literal of \<open>generateId\<close> uses it.\<close>

fun natToString :: "nat \<Rightarrow> string" where
  "natToString n =
     (if n < 10 then [''0123456789'' ! n]
      else natToString (n div 10) @ [''0123456789'' ! (n mod 10)])"

declare natToString.simps [simp del]

fun numToString :: "jsnum \<Rightarrow> string" where
  "numToString NaN = ''NaN''"
| "numToString (Num i) = (if i < 0 then CHR ''-'' # natToString (nat (- i)) else natToString (nat i))"

text \<open>
  \<open>parseInt(s)\<close> with no radix: leading white space is skipped, an optional sign is read,
  a prefix \<open>0x\<close> or \<open>0X\<close> selects radix 16, and the longest prefix of digits is the value;
  no digit gives \<open>NaN\<close>. Strings are byte strings, so only the ASCII white space
  characters are skipped.
\<close>

definition isWhiteSpace :: "char \<Rightarrow> bool" where
  "isWhiteSpace c = (c \<in> set [CHR 0x09, CHR 0x0A, CHR 0x0B, CHR 0x0C, CHR 0x0D, CHR 0x20])"

definition digitValue :: "char \<Rightarrow> nat option" where
  "digitValue c =
     (let n = (of_char c :: nat) in
      if 48 \<le> n \<and> n \<le> 57 then Some (n - 48)
      else if 97 \<le> n \<and> n \<le> 102 then Some (n - 87)
      else if 65 \<le> n \<and> n \<le> 70 then Some (n - 55)
      else None)"

text \<open>The digits of the longest prefix of \<open>s\<close> that are digits of radix \<open>r\<close>.\<close>

fun leadingDigits :: "nat \<Rightarrow> string \<Rightarrow> nat list" where
  "leadingDigits r [] = []"
| "leadingDigits r (c # cs) =
     (case digitValue c of
        None \<Rightarrow> []
      | Some d \<Rightarrow> if d < r then d # leadingDigits r cs else [])"

definition digitsValue :: "nat \<Rightarrow> nat list \<Rightarrow> nat" where
  "digitsValue r ds = foldl (\<lambda>acc d. acc * r + d) 0 ds"

definition parseDigits :: "int \<Rightarrow> nat \<Rightarrow> string \<Rightarrow> jsnum" where
  "parseDigits sign r s =
     (let ds = leadingDigits r s in
      if ds = [] then NaN else Num (sign * int (digitsValue r ds)))"

definition parseUnsigned :: "int \<Rightarrow> string \<Rightarrow> jsnum" where
  "parseUnsigned sign s =
     (if take 2 s = ''0x'' \<or> take 2 s = ''0X'' then parseDigits sign 16 (drop 2 s)
      else parseDigits sign 10 s)"

definition parseInt :: "string \<Rightarrow> jsnum" where
  "parseInt str =
     (let s = dropWhile isWhiteSpace str in
      case s of
        [] \<Rightarrow> NaN
      | c # cs \<Rightarrow>
          if c = CHR ''-'' then parseUnsigned (- 1) cs
          else if c = CHR ''+'' then parseUnsigned 1 cs
          else parseUnsigned 1 s)"

text \<open>\<open>s.split(d)\<close> for a one-character separator: never empty, \<open>''''.split(d) = ['''']\<close>.\<close>

fun split :: "char \<Rightarrow> string \<Rightarrow> string list" where
  "split d [] = [[]]"
| "split d (c # cs) =
     (if c = d then [] # split d cs
      else (case split d cs of
              [] \<Rightarrow> [[c]]
            | w # ws \<Rightarrow> (c # w) # ws))"

text \<open>
  The class \<open>Card\<close>: \<open>type\<close> and \<open>value\<close> are given to the constructor, \<open>id\<close> is
  computed from them by \<open>generateId\<close> and never assigned again, so it is a function of
  the card.
\<close>

record card =
  ctype :: string
  cvalue :: jsnum

definition Card :: "string \<Rightarrow> jsnum \<Rightarrow> card" where
  "Card t v = \<lparr>ctype = t, cvalue = v\<rparr>"

definition WAN :: string where "WAN = ''wan''"
definition TONG :: string where "TONG = ''tong''"
definition SUO :: string where "SUO = ''suo''"
definition ZI :: string where "ZI = ''zi''"
definition HUA :: string where "HUA = ''hua''"

definition generateId :: "card \<Rightarrow> string" where
  "generateId c = ctype c @ ''_'' @ numToString (cvalue c)"

definition isFlower :: "card \<Rightarrow> bool" where
  "isFlower c = (ctype c = HUA)"

definition isHonor :: "card \<Rightarrow> bool" where
  "isHonor c = (ctype c = ZI)"

definition isNumber :: "card \<Rightarrow> bool" where
  "isNumber c = (ctype c \<in> set [WAN, TONG, SUO])"

definition equals :: "card \<Rightarrow> card \<Rightarrow> bool" where
  "equals c other = (ctype c = ctype other \<and> strictEq (cvalue c) (cvalue other))"


text \<open>
  \<open>canFormSequence\<close>: the three values are sorted numerically and compared with
  \<open>===\<close>; a \<open>NaN\<close> among them makes both comparisons false whatever the order.
\<close>

definition canFormSequence :: "card \<Rightarrow> card \<Rightarrow> card \<Rightarrow> bool" where
  "canFormSequence c card2 card3 =
     (if \<not> isNumber c \<or> \<not> isNumber card2 \<or> \<not> isNumber card3 then False
      else if ctype c \<noteq> ctype card2 \<or> ctype c \<noteq> ctype card3 then False
      else (case (cvalue c, cvalue card2, cvalue card3) of
              (Num a, Num b, Num d) \<Rightarrow>
                (let vs = sort [a, b, d] in vs ! 1 = vs ! 0 + 1 \<and> vs ! 2 = vs ! 1 + 1)
            | _ \<Rightarrow> False))"

text \<open>
  Display names are Chinese text; they are kept as lists of UTF-16 code units, the
  digits of a value included. \<open>typeNames[type]\<close> is \<open>undefined\<close> for a type that is not a
  key of the table (a type that names an inherited property of objects, such as
  \<open>toString\<close>, is outside the model).
\<close>

type_synonym ustring = "nat list"

definition ascii :: "string \<Rightarrow> ustring" where
  "ascii s = map of_char s"

definition typeNames :: "string \<Rightarrow> ustring" where
  "typeNames t =
     (if t = WAN then [19975]
      else if t = TONG then [31570]
      else if t = SUO then [32034]
      else if t = ZI \<or> t = HUA then []
      else ascii ''undefined'')"

definition ziNames :: "ustring list" where
  "ziNames = [[], [19996], [21335], [35199], [21271], [20013], [21457], [30333]]"

definition huaNames :: "ustring list" where
  "huaNames = [[], [26757], [20848], [33738], [31481], [26149], [22799], [31179], [20908]]"

text \<open>\<open>names[value] || ''\<close>: an index outside the table reads \<open>undefined\<close>, which gives \<open>''\<close>.\<close>

definition nameAt :: "ustring list \<Rightarrow> jsnum \<Rightarrow> ustring" where
  "nameAt names v =
     (case v of
        NaN \<Rightarrow> []
      | Num i \<Rightarrow> if 0 \<le> i \<and> nat i < length names then names ! nat i else [])"

definition getDisplayName :: "card \<Rightarrow> ustring" where
  "getDisplayName c =
     (if ctype c = ZI then nameAt ziNames (cvalue c)
      else if ctype c = HUA then nameAt huaNames (cvalue c)
      else ascii (numToString (cvalue c)) @ typeNames (ctype c))"

record card_json =
  json_id :: string
  json_type :: string
  json_value :: jsnum
  json_displayName :: ustring

definition toJSON :: "card \<Rightarrow> card_json" where
  "toJSON c =
     \<lparr>json_id = generateId c, json_type = ctype c, json_value = cvalue c,
      json_displayName = getDisplayName c\<rparr>"

definition fromJSON :: "card_json \<Rightarrow> card" where
  "fromJSON json = Card (json_type json) (json_value json)"

subsection \<open>The deck (class CardDeck)\<close>

text \<open>
  \<open>cards\<close> is an array; \<open>drawCard\<close> pops its last element, so the last element of the
  list is the top of the wall.
\<close>

definition initializeDeck :: "card list" where
  "initializeDeck =
     concat (map (\<lambda>t. concat (map (\<lambda>v. replicate 4 (Card t (Num v))) [1..9])) [WAN, TONG, SUO])
     @ concat (map (\<lambda>v. replicate 4 (Card ZI (Num v))) [1..7])
     @ map (\<lambda>v. Card HUA (Num v)) [1..8]"

text \<open>
  \<open>shuffle\<close> walks \<open>i\<close> from the last index down to 1 and swaps the cards at \<open>i\<close>
  and \<open>j = Math.floor(Math.random() * (i + 1))\<close>. The random source is the parameter
  \<open>rnd\<close>: \<open>rnd i\<close> is the \<open>j\<close> drawn at index \<open>i\<close>, which JavaScript keeps within \<open>0..i\<close>.
\<close>

definition swap :: "nat \<Rightarrow> nat \<Rightarrow> 'a list \<Rightarrow> 'a list" where
  "swap i j xs = xs[i := xs ! j, j := xs ! i]"

fun shuffleFrom :: "(nat \<Rightarrow> nat) \<Rightarrow> nat \<Rightarrow> card list \<Rightarrow> card list" where
  "shuffleFrom rnd 0 cards = cards"
| "shuffleFrom rnd (Suc i) cards = shuffleFrom rnd i (swap (Suc i) (rnd (Suc i)) cards)"

definition shuffle :: "(nat \<Rightarrow> nat) \<Rightarrow> card list \<Rightarrow> card list" where
  "shuffle rnd cards = shuffleFrom rnd (length cards - 1) cards"

definition hasCards :: "card list \<Rightarrow> bool" where
  "hasCards cards = (length cards > 0)"

definition getRemainingCount :: "card list \<Rightarrow> nat" where
  "getRemainingCount cards = length cards"

text \<open>\<open>drawCard\<close> returns the popped card (\<open>undefined\<close>, here \<open>None\<close>, on an empty array) and the rest.\<close>

definition drawCard :: "card list \<Rightarrow> card option \<times> card list" where
  "drawCard cards = (if cards = [] then (None, []) else (Some (last cards), butlast cards))"

text \<open>\<open>drawCards\<close>: the loop stops after \<open>count\<close> cards or when the array is empty.\<close>

fun drawCards :: "nat \<Rightarrow> card list \<Rightarrow> card list \<times> card list" where
  "drawCards 0 cards = ([], cards)"
| "drawCards (Suc n) cards =
     (if cards = [] then ([], cards)
      else (case drawCards n (butlast cards) of
              (drawn, rest) \<Rightarrow> (last cards # drawn, rest)))"


section \<open>The game (class Game)\<close>

datatype game_state = WAITING | STARTING | DEALING | PLAYING | FINISHED | PAUSED

datatype player_action = DISCARD | CHI | PENG | GANG | HU | PASS

datatype feng_position = DONG | NAN | XI | BEI

datatype game_mode = YAO_BAN_SAN | YAO_BAN_LIU | TUI_DAO_BA | YAO_ER_LIU

text \<open>
  What the code throws: the three errors of \<open>playerDiscard\<close>, and the \<open>TypeError\<close> of
  JavaScript on a property of \<open>undefined\<close> (a seat index outside \<open>players\<close>, a missing
  last discard).
\<close>

datatype error = GameNotPlaying | NotPlayersTurn | CardNotInHand | TypeError

record exposed_group =
  etype :: string
  ecards :: "string list"
  efrom :: nat

text \<open>
  One entry of \<open>players\<close>. Hands and piles hold card ids. \<open>availableActions\<close> is the
  property \<open>checkPlayerActions\<close> sets on the player object; it is absent (\<open>None\<close>)
  until then.
\<close>

record player =
  userId :: nat
  position :: nat
  feng :: "feng_position option"
  handCards :: "string list"
  discardedCards :: "string list"
  exposedCards :: "exposed_group list"
  flowerCards :: "string list"
  isReady :: bool
  score :: int
  availableActions :: "player_action list option"

record history_entry =
  hplayer :: nat
  haction :: player_action
  hcards :: "string list"
  htimestamp :: nat

text \<open>
  A \<open>Game\<close> object: the fields of \<open>this.data\<close> the engine reads or writes, and \<open>deck\<close>,
  the \<open>cards\<close> array of \<open>this.deck\<close>. \<open>dataDeck\<close> is \<open>this.data.deck\<close>, the list of ids
  \<open>initialize\<close> stores and nothing reads; \<open>roundNo\<close> is \<open>this.data.round\<close>. Seats, rounds
  and user ids are natural numbers, time stamps are ticks of a clock.
\<close>

record game =
  roomId :: string
  players :: "player list"
  state :: game_state
  mode :: game_mode
  currentPlayer :: nat
  dealer :: nat
  roundNo :: nat
  dataDeck :: "string list"
  lastDiscardedCard :: "string option"
  lastAction :: "player_action option"
  gameHistory :: "history_entry list"
  endTime :: "nat option"
  winner :: "nat option"
  winType :: "ustring option"
  fanCount :: "int option"
  huCount :: "int option"
  deck :: "card list"

text \<open>\<open>new Game(gameData)\<close>: the constructor builds a fresh, unshuffled \<open>CardDeck\<close>.\<close>

definition newGame :: "game \<Rightarrow> game" where
  "newGame gameData = gameData\<lparr>deck := initializeDeck\<rparr>"

text \<open>\<open>this.data.players[i]\<close>: \<open>undefined\<close> (here \<open>None\<close>) outside the array.\<close>

definition playerAt :: "game \<Rightarrow> nat \<Rightarrow> player option" where
  "playerAt g i = (if i < length (players g) then Some (players g ! i) else None)"

definition getFengByPosition :: "nat \<Rightarrow> feng_position option" where
  "getFengByPosition pos = (if pos < 4 then Some ([DONG, NAN, XI, BEI] ! pos) else None)"

definition initialPlayer :: "nat \<Rightarrow> nat \<Rightarrow> player" where
  "initialPlayer index uid =
     \<lparr>userId = uid, position = index, feng = getFengByPosition index, handCards = [],
      discardedCards = [], exposedCards = [], flowerCards = [], isReady = False, score = 0,
      availableActions = None\<rparr>"

text \<open>\<open>initialize(players, mode)\<close>; the players are given by their user ids.\<close>

definition initialize :: "(nat \<Rightarrow> nat) \<Rightarrow> nat list \<Rightarrow> game_mode \<Rightarrow> game \<Rightarrow> game" where
  "initialize rnd uids m g =
     (let cards = shuffle rnd (deck g) in
      g\<lparr>players := map (\<lambda>(index, uid). initialPlayer index uid) (enumerate 0 uids),
        mode := m,
        state := STARTING,
        currentPlayer := dealer g,
        deck := cards,
        dataDeck := map generateId cards\<rparr>)"

text \<open>
  \<open>getCardById\<close>: \<open>[type, value] = cardId.split('_')\<close> takes the first two parts; with
  no separator \<open>value\<close> is \<open>undefined\<close> and \<open>parseInt\<close> gives \<open>NaN\<close>.
\<close>

definition getCardById :: "string \<Rightarrow> card" where
  "getCardById cardId =
     (case split (CHR ''_'') cardId of
        [] \<Rightarrow> Card [] NaN
      | [t] \<Rightarrow> Card t NaN
      | t # v # _ \<Rightarrow> Card t (parseInt v))"

subsection \<open>Dealing and the flower sweep\<close>

text \<open>The \<open>forEach\<close> of \<open>dealCards\<close>: 14 cards for the dealer's index, 13 for the others.\<close>

fun dealLoop :: "nat \<Rightarrow> nat \<Rightarrow> player list \<Rightarrow> card list \<Rightarrow> player list \<times> card list" where
  "dealLoop d index [] cards = ([], cards)"
| "dealLoop d index (p # ps) cards =
     (let cardCount = (if index = d then 14 else 13) in
      case drawCards cardCount cards of
        (drawn, rest) \<Rightarrow>
          (case dealLoop d (Suc index) ps rest of
             (ps', rest') \<Rightarrow> (p\<lparr>handCards := map generateId drawn\<rparr> # ps', rest')))"

text \<open>The test \<open>card && card.isFlower()\<close> on \<open>card = getCardById(cardId)\<close>; a card object is always truthy.\<close>

definition isFlowerId :: "string \<Rightarrow> bool" where
  "isFlowerId cardId = isFlower (getCardById cardId)"

text \<open>
  One turn of the inner \<open>for\<close> loop of \<open>handleFlowerCards\<close>, for seat \<open>(dealer + i) % 4\<close>.
  The state of the loop is the flag \<open>hasFlowers\<close> and the game; the result carries the
  exception, if one was thrown.
\<close>

definition sweepSeat :: "nat \<Rightarrow> bool \<times> game \<Rightarrow> error option \<times> bool \<times> game" where
  "sweepSeat i hg =
     (case hg of (hasFlowers, g) \<Rightarrow>
        (let playerIndex = (dealer g + i) mod 4 in
         case playerAt g playerIndex of
           None \<Rightarrow> (Some TypeError, hasFlowers, g)
         | Some p \<Rightarrow>
             (let flowers = filter isFlowerId (handCards p);
                  remainingCards = filter (\<lambda>cardId. \<not> isFlowerId cardId) (handCards p)
              in if length flowers > 0 then
                   (case drawCards (length flowers) (deck g) of
                      (newCards, rest) \<Rightarrow>
                        (None, True,
                         g\<lparr>players := (players g)[playerIndex :=
                              p\<lparr>flowerCards := flowerCards p @ flowers,
                                handCards := remainingCards @ map generateId newCards\<rparr>],
                           deck := rest\<rparr>))
                 else (None, hasFlowers, g))))"

fun sweepPass :: "nat list \<Rightarrow> bool \<times> game \<Rightarrow> error option \<times> bool \<times> game" where
  "sweepPass [] hg = (None, hg)"
| "sweepPass (i # is) hg =
     (case sweepSeat i hg of
        (Some e, hg') \<Rightarrow> (Some e, hg')
      | (None, hg') \<Rightarrow> sweepPass is hg')"

text \<open>The flower tiles still to be swept: those in the hands and those in the wall.\<close>

definition flowersInHands :: "game \<Rightarrow> nat" where
  "flowersInHands g = sum_list (map (\<lambda>p. length (filter isFlowerId (handCards p))) (players g))"

definition flowersLeft :: "game \<Rightarrow> nat" where
  "flowersLeft g = flowersInHands g + length (filter (\<lambda>c. isFlowerId (generateId c)) (deck g))"



lemma drawCards_filter:
  "drawCards n cs = (d, r) \<Longrightarrow> length (filter P d) + length (filter P r) = length (filter P cs)"
proof (induction n arbitrary: cs d r)
  case 0 then show ?case by simp
next
  case (Suc n)
  show ?case
  proof (cases "cs = []")
    case True with Suc.prems show ?thesis by simp
  next
    case False
    obtain d' r' where dr: "drawCards n (butlast cs) = (d', r')" by (cases "drawCards n (butlast cs)")
    with Suc.prems False have eq: "d = last cs # d'" "r = r'" by auto
    from Suc.IH[OF dr] have ih: "length (filter P d') + length (filter P r') = length (filter P (butlast cs))" .
    from False have "cs = butlast cs @ [last cs]" by simp
    then have "filter P cs = filter P (butlast cs) @ filter P [last cs]" by (metis filter_append)
    then show ?thesis using eq ih by simp
  qed
qed

lemma sum_list_map_update:
  fixes f :: "'a \<Rightarrow> nat"
  shows "i < length xs \<Longrightarrow> sum_list (map f (xs[i := x])) + f (xs ! i) = sum_list (map f xs) + f x"
proof (induction xs arbitrary: i)
  case Nil then show ?case by simp
next
  case (Cons a xs) then show ?case by (cases i) auto
qed

lemma sweepSeat_flowersLeft:
  assumes "sweepSeat i (h, g) = (None, h', g')"
  shows "flowersLeft g' \<le> flowersLeft g \<and> (\<not> h \<and> h' \<longrightarrow> flowersLeft g' < flowersLeft g)"
proof -
  let ?k = "(dealer g + i) mod 4"
  from assms obtain p where p: "playerAt g ?k = Some p"
    by (auto simp: sweepSeat_def Let_def split: option.splits)
  then have k: "?k < length (players g)" and pk: "p = players g ! ?k"
    by (auto simp: playerAt_def split: if_splits)
  let ?fl = "filter isFlowerId (handCards p)"
  let ?rem = "filter (\<lambda>cardId. \<not> isFlowerId cardId) (handCards p)"
  show ?thesis
  proof (cases "length ?fl > 0")
    case False
    with assms p show ?thesis by (auto simp: sweepSeat_def Let_def)
  next
    case True
    obtain d r where dr: "drawCards (length ?fl) (deck g) = (d, r)" by (cases "drawCards (length ?fl) (deck g)")
    let ?p' = "p\<lparr>flowerCards := flowerCards p @ ?fl, handCards := ?rem @ map generateId d\<rparr>"
    from assms p True dr have g': "g' = g\<lparr>players := (players g)[?k := ?p'], deck := r\<rparr>"
      by (auto simp: sweepSeat_def Let_def)
    let ?f = "\<lambda>p. length (filter isFlowerId (handCards p))"
    have upd: "sum_list (map ?f ((players g)[?k := ?p'])) + ?f p = sum_list (map ?f (players g)) + ?f ?p'"
      using sum_list_map_update[OF k, of ?f ?p'] pk by simp
    have fp: "?f p = length ?fl" by simp
    have "filter isFlowerId ?rem = []" by simp
    then have fp': "?f ?p' = length (filter (\<lambda>c. isFlowerId (generateId c)) d)"
      by (simp add: filter_map comp_def)
    have dk: "length (filter (\<lambda>c. isFlowerId (generateId c)) d) + length (filter (\<lambda>c. isFlowerId (generateId c)) r)
        = length (filter (\<lambda>c. isFlowerId (generateId c)) (deck g))"
      by (rule drawCards_filter[OF dr])
    have "flowersLeft g' + length ?fl = flowersLeft g"
      using upd fp fp' dk by (simp add: flowersLeft_def flowersInHands_def g')
    with True show ?thesis by linarith
  qed
qed

lemma sweepPass_flowersLeft:
  "sweepPass is (h, g) = (None, h', g') \<Longrightarrow>
     flowersLeft g' \<le> flowersLeft g \<and> (\<not> h \<and> h' \<longrightarrow> flowersLeft g' < flowersLeft g)"
proof (induction "is" arbitrary: h g)
  case Nil then show ?case by simp
next
  case (Cons i "is")
  from Cons.prems obtain h1 g1 where s: "sweepSeat i (h, g) = (None, h1, g1)"
    and r: "sweepPass is (h1, g1) = (None, h', g')"
    by (auto split: prod.splits option.splits)
  from sweepSeat_flowersLeft[OF s] Cons.IH[OF r] show ?case by (cases h1) auto
qed

text \<open>
  \<open>handleFlowerCards\<close>: the \<open>while (hasFlowers)\<close> loop repeats the pass over the four
  seats until a pass finds no flower. Each pass that finds one moves it out of a hand,
  so \<open>flowersLeft\<close> decreases and the loop ends.
\<close>

function handleFlowerCards :: "game \<Rightarrow> error option \<times> game" where
  "handleFlowerCards g =
     (case sweepPass [0, 1, 2, 3] (False, g) of
        (Some e, hasFlowers, g') \<Rightarrow> (Some e, g')
      | (None, hasFlowers, g') \<Rightarrow> if hasFlowers then handleFlowerCards g' else (None, g'))"
  by pat_completeness auto
termination
proof (relation "measure flowersLeft")
  show "wf (measure flowersLeft)" by simp
next
  fix g x1 x2 h g'
  show "(g', g) \<in> measure flowersLeft" if "(x1, x2) = sweepPass [0, 1, 2, 3] (False, g)" "x1 = None" "(h, g') = x2" "h"
    using that sweepPass_flowersLeft[of "[0,1,2,3]" False g h g'] by auto
qed


declare handleFlowerCards.simps [simp del]


text \<open>
  \<open>dealCards\<close>. An exception of the sweep leaves the state \<open>DEALING\<close>: the last
  assignment is not reached.
\<close>

definition dealCards :: "game \<Rightarrow> error option \<times> game" where
  "dealCards g =
     (case dealLoop (dealer g) 0 (players g) (deck g) of
        (ps, rest) \<Rightarrow>
          (case handleFlowerCards (g\<lparr>state := DEALING, players := ps, deck := rest\<rparr>) of
             (Some e, g') \<Rightarrow> (Some e, g')
           | (None, g') \<Rightarrow> (None, g'\<lparr>state := PLAYING\<rparr>)))"

subsection \<open>Claims on a discard\<close>

text \<open>
  \<open>isWinningHand\<close>: the count of tiles is checked, then the function returns \<open>false\<close>
  (its body ends with a TODO for the real check).
\<close>

definition isWinningHand :: "string list \<Rightarrow> exposed_group list \<Rightarrow> bool" where
  "isWinningHand hand exposed =
     (let totalCards = length hand + foldl (\<lambda>sum group. sum + length (ecards group)) 0 exposed in
      if totalCards \<noteq> 14 then False else False)"

text \<open>
  The queries read \<open>this.data.players[playerPosition]\<close> first; on a seat outside the
  array that is \<open>undefined\<close> and the next property access throws.
  \<open>canHu\<close> adds the card only when \<open>cardId\<close> is truthy: not \<open>null\<close> and not the empty
  string.
\<close>

definition canHu :: "game \<Rightarrow> nat \<Rightarrow> string option \<Rightarrow> error + bool" where
  "canHu g playerPosition cardId =
     (case playerAt g playerPosition of
        None \<Rightarrow> Inl TypeError
      | Some p \<Rightarrow>
          (let testCards =
                 (case cardId of
                    None \<Rightarrow> handCards p
                  | Some c \<Rightarrow> if c \<noteq> [] then handCards p @ [c] else handCards p)
           in Inr (isWinningHand testCards (exposedCards p))))"

definition sameCards :: "player \<Rightarrow> string \<Rightarrow> string list" where
  "sameCards p cardId =
     filter (\<lambda>handCardId. equals (getCardById handCardId) (getCardById cardId)) (handCards p)"

definition canPeng :: "game \<Rightarrow> nat \<Rightarrow> string \<Rightarrow> error + bool" where
  "canPeng g playerPosition cardId =
     (case playerAt g playerPosition of
        None \<Rightarrow> Inl TypeError
      | Some p \<Rightarrow> Inr (length (sameCards p cardId) \<ge> 2))"

definition canGang :: "game \<Rightarrow> nat \<Rightarrow> string \<Rightarrow> error + bool" where
  "canGang g playerPosition cardId =
     (case playerAt g playerPosition of
        None \<Rightarrow> Inl TypeError
      | Some p \<Rightarrow> Inr (length (sameCards p cardId) \<ge> 3))"

text \<open>The two nested loops of \<open>canChi\<close>: some pair \<open>i < j\<close> of the hand satisfies \<open>P\<close>.\<close>

fun existsPair :: "('a \<Rightarrow> 'a \<Rightarrow> bool) \<Rightarrow> 'a list \<Rightarrow> bool" where
  "existsPair P [] = False"
| "existsPair P (x # xs) = (list_ex (P x) xs \<or> existsPair P xs)"

text \<open>\<open>canChi\<close> returns \<open>false\<close> on a card that is not numeric before it reads the hand.\<close>

definition canChi :: "game \<Rightarrow> nat \<Rightarrow> string \<Rightarrow> error + bool" where
  "canChi g playerPosition cardId =
     (let c = getCardById cardId in
      if \<not> isNumber c then Inr False
      else (case playerAt g playerPosition of
              None \<Rightarrow> Inl TypeError
            | Some p \<Rightarrow> Inr (existsPair (canFormSequence c) (map getCardById (handCards p)))))"

text \<open>
  \<open>checkPlayerActions\<close>: for every seat but the current one, the list \<open>actions\<close> in the
  order the checks are made. The queries read hands and melds only, which the loop does
  not change, so every seat is judged on the state at entry.
\<close>

definition actionsFor :: "game \<Rightarrow> nat \<Rightarrow> string \<Rightarrow> player_action list" where
  "actionsFor g index discardedCardId =
     (if canHu g index (Some discardedCardId) = Inr True then [HU] else [])
     @ (if canGang g index discardedCardId = Inr True then [GANG] else [])
     @ (if canPeng g index discardedCardId = Inr True then [PENG] else [])
     @ (if index = (currentPlayer g + 1) mod 4 \<and> canChi g index discardedCardId = Inr True
        then [CHI] else [])"

text \<open>The body of the \<open>forEach\<close>, for the player at \<open>index\<close>.\<close>

definition offerActions :: "game \<Rightarrow> string \<Rightarrow> nat \<Rightarrow> player \<Rightarrow> player" where
  "offerActions g discardedCardId index p =
     (if index = currentPlayer g then p
      else (let actions = actionsFor g index discardedCardId in
            if length actions > 0 then p\<lparr>availableActions := Some actions\<rparr> else p))"

definition checkPlayerActions :: "string \<Rightarrow> game \<Rightarrow> game" where
  "checkPlayerActions discardedCardId g =
     g\<lparr>players := map (\<lambda>(index, p). offerActions g discardedCardId index p)
                       (enumerate 0 (players g))\<rparr>"

subsection \<open>Turn advance and discard\<close>

text \<open>
  \<open>nextPlayer\<close>. Under the guard \<open>hasCards\<close>, \<open>drawCard\<close> is the last card of the
  array and leaves the rest. The card is popped from the wall before the seat's hand is
  touched, so on a seat outside \<open>players\<close> the exception leaves the wall one card
  shorter. A drawn flower is pushed and popped again, and one replacement is drawn.
\<close>

definition nextPlayer :: "game \<Rightarrow> error option \<times> game" where
  "nextPlayer g0 =
     (let g = g0\<lparr>currentPlayer := (currentPlayer g0 + 1) mod 4\<rparr> in
      if hasCards (deck g) then
        (let newCard = last (deck g);
             g1 = g\<lparr>deck := butlast (deck g)\<rparr>
         in case playerAt g (currentPlayer g) of
              None \<Rightarrow> (Some TypeError, g1)
            | Some p \<Rightarrow>
                (let p1 = p\<lparr>handCards := handCards p @ [generateId newCard]\<rparr> in
                 if isFlower newCard then
                   (let p2 = p1\<lparr>flowerCards := flowerCards p1 @ [generateId newCard],
                                handCards := butlast (handCards p1)\<rparr>
                    in if hasCards (deck g1) then
                         (let supplementCard = last (deck g1);
                              p3 = p2\<lparr>handCards := handCards p2 @ [generateId supplementCard]\<rparr>
                          in (None, g1\<lparr>players := (players g1)[currentPlayer g := p3],
                                       deck := butlast (deck g1)\<rparr>))
                       else (None, g1\<lparr>players := (players g1)[currentPlayer g := p2]\<rparr>))
                 else (None, g1\<lparr>players := (players g1)[currentPlayer g := p1]\<rparr>)))
      else (None, g))"

text \<open>
  \<open>playerDiscard(playerPosition, cardId)\<close>; \<open>now\<close> is the \<open>new Date()\<close> of the history
  entry. \<open>splice(indexOf(cardId), 1)\<close> removes the first occurrence.
\<close>

definition playerDiscard :: "nat \<Rightarrow> nat \<Rightarrow> string \<Rightarrow> game \<Rightarrow> error option \<times> game" where
  "playerDiscard now playerPosition cardId g =
     (if state g \<noteq> PLAYING then (Some GameNotPlaying, g)
      else if currentPlayer g \<noteq> playerPosition then (Some NotPlayersTurn, g)
      else case playerAt g playerPosition of
             None \<Rightarrow> (Some TypeError, g)
           | Some p \<Rightarrow>
               if cardId \<notin> set (handCards p) then (Some CardNotInHand, g)
               else
                 (let p' = p\<lparr>handCards := remove1 cardId (handCards p),
                              discardedCards := discardedCards p @ [cardId]\<rparr>;
                      g1 = g\<lparr>players := (players g)[playerPosition := p'],
                             lastDiscardedCard := Some cardId,
                             lastAction := Some DISCARD,
                             gameHistory := gameHistory g @
                               [\<lparr>hplayer = playerPosition, haction = DISCARD,
                                 hcards = [cardId], htimestamp = now\<rparr>]\<rparr>
                  in nextPlayer (checkPlayerActions cardId g1)))"

text \<open>\<open>endGame\<close>; \<open>calculateScores\<close> has an empty body.\<close>

definition endGame :: "nat \<Rightarrow> nat \<Rightarrow> ustring \<Rightarrow> int \<Rightarrow> int \<Rightarrow> game \<Rightarrow> game" where
  "endGame now w wt fc hc g =
     g\<lparr>state := FINISHED, winner := Some w, winType := Some wt, fanCount := Some fc,
       huCount := Some hc, endTime := Some now\<rparr>"


subsection \<open>The snapshot\<close>

record player_view =
  view_userId :: nat
  view_position :: nat
  view_feng :: "feng_position option"
  handCardCount :: nat
  view_discardedCards :: "string list"
  view_exposedCards :: "exposed_group list"
  view_flowerCards :: "string list"
  view_score :: int

record game_view =
  view_roomId :: string
  view_state :: game_state
  view_mode :: game_mode
  view_currentPlayer :: nat
  view_dealer :: nat
  view_round :: nat
  view_players :: "player_view list"
  view_lastDiscardedCard :: "string option"
  remainingCards :: nat
  view_gameHistory :: "history_entry list"

definition playerView :: "player \<Rightarrow> player_view" where
  "playerView p =
     \<lparr>view_userId = userId p, view_position = position p, view_feng = feng p,
      handCardCount = length (handCards p), view_discardedCards = discardedCards p,
      view_exposedCards = exposedCards p, view_flowerCards = flowerCards p,
      view_score = score p\<rparr>"

text \<open>\<open>Game.getGameState\<close>; \<open>slice(-10)\<close> keeps the last ten entries of the history.\<close>

definition getGameState :: "game \<Rightarrow> game_view" where
  "getGameState g =
     \<lparr>view_roomId = roomId g, view_state = state g, view_mode = mode g,
      view_currentPlayer = currentPlayer g, view_dealer = dealer g, view_round = roundNo g,
      view_players = map playerView (players g),
      view_lastDiscardedCard = lastDiscardedCard g,
      remainingCards = getRemainingCount (deck g),
      view_gameHistory = drop (length (gameHistory g) - 10) (gameHistory g)\<rparr>"

section \<open>The controller (class GameController)\<close>

text \<open>
  Every request loads the game document, builds \<open>new Game(gameData)\<close> on it, acts, and
  saves the document unless an exception was thrown. A request is modelled by a
  function from the document to the response and the document afterwards; the game is
  the one \<open>findById\<close> found. \<open>Failure\<close> carries the HTTP status. The wall of the
  \<open>Game\<close> object is not part of the document: \<open>newGame\<close> replaces the field \<open>deck\<close> on
  every request.
\<close>

datatype 'a response = Success 'a | Failure nat


definition findPlayer :: "game \<Rightarrow> nat \<Rightarrow> player option" where
  "findPlayer gameData uid = find (\<lambda>p. userId p = uid) (players gameData)"


definition GameController_playerDiscard ::
    "nat \<Rightarrow> game \<Rightarrow> nat \<Rightarrow> string \<Rightarrow> game_view response \<times> game" where
  "GameController_playerDiscard now gameData uid cardId =
     (case findPlayer gameData uid of
        None \<Rightarrow> (Failure 403, gameData)
      | Some p \<Rightarrow>
          (case playerDiscard now (position p) cardId (newGame gameData) of
             (Some e, g') \<Rightarrow> (Failure 500, gameData)
           | (None, g') \<Rightarrow> (Success (getGameState g'), g')))"








section \<open>What a viewer can tell apart\<close>



section \<open>Tile conservation\<close>




text \<open>
  The states one \<open>Game\<close> object reaches without a claim: the object built on a stored
  game and initialised, the state after its deal, and the states after each discard that
  is accepted (with the turn advance that follows it). The random source keeps each
  \<open>j\<close> within \<open>0..i\<close>.
\<close>

inductive reachable :: "game \<Rightarrow> bool" where
  start: "\<forall>i. rnd i \<le> i \<Longrightarrow> reachable (initialize rnd uids m (newGame gameData))"
| deal: "\<forall>i. rnd i \<le> i \<Longrightarrow> dealCards (initialize rnd uids m (newGame gameData)) = (None, g)
         \<Longrightarrow> reachable g"
| discard: "reachable g \<Longrightarrow> playerDiscard now playerPosition cardId g = (None, g')
         \<Longrightarrow> reachable g'"

text \<open>
  A round in which play can go on: the game is \<open>PLAYING\<close>, the four seats exist and
  hold at least thirteen tiles each, and while the wall has a tile the current seat
  holds at least fourteen.
\<close>

definition roundInPlay :: "game \<Rightarrow> bool" where
  "roundInPlay g =
     (state g = PLAYING \<and> 4 \<le> length (players g) \<and> currentPlayer g < 4
      \<and> (\<forall>i < 4. 13 \<le> length (handCards (players g ! i)))
      \<and> (deck g \<noteq> [] \<longrightarrow> 14 \<le> length (handCards (players g ! currentPlayer g))))"

section \<open>A concrete round\<close>

text \<open>
  One round, used to evaluate the code on states it reaches: a stored game with no
  players yet, a run of the random source, the wall that \<open>shuffle\<close> makes of it, the
  state after \<open>dealCards\<close> and the state after the dealer's first discard.
\<close>

definition tiles :: "string \<Rightarrow> int list \<Rightarrow> card list" where
  "tiles t vs = map (\<lambda>v. Card t (Num v)) vs"

definition emptyTable :: game where
  "emptyTable =
     \<lparr>roomId = ''room'', players = [], state = WAITING, mode = YAO_BAN_SAN, currentPlayer = 0,
      dealer = 0, roundNo = 1, dataDeck = [], lastDiscardedCard = None, lastAction = None,
      gameHistory = [], endTime = None, winner = None, winType = None, fanCount = None,
      huCount = None, deck = []\<rparr>"

definition scenarioPicks :: "nat list" where
  "scenarioPicks = [
      0, 1, 2, 3, 2, 3, 2, 6, 7, 3, 6, 11, 2, 7, 10, 2, 3, 11, 6, 11, 15, 7, 10, 19, 23, 2,
      3, 19, 6, 11, 15, 7, 10, 31, 27, 2, 23, 10, 7, 27, 3, 19, 35, 11, 15, 43, 6, 19, 38,
      37, 43, 47, 31, 38, 53, 31, 39, 54, 15, 19, 23, 2, 6, 62, 10, 31, 57, 10, 7, 27, 53,
      31, 35, 51, 3, 7, 11, 50, 58, 65, 59, 63, 66, 39, 47, 43, 37, 51, 55, 70, 38, 54, 79,
      83, 91, 95, 23, 19, 15, 10, 6, 2, 62, 57, 67, 71, 106, 103, 99, 95, 91, 87, 83, 79,
      75, 53, 54, 27, 115, 119, 115, 111, 35, 31, 27, 11, 7, 3, 58, 50, 71, 65, 66, 67, 63,
      59, 55, 51, 39, 47, 43, 37, 38, 39]"

definition scenarioRandom :: "nat \<Rightarrow> nat" where
  "scenarioRandom i = (if i < length scenarioPicks then scenarioPicks ! i else 0)"

definition scenarioWall :: "card list" where
  "scenarioWall =
      tiles WAN [1, 1, 2, 2, 3, 3, 4, 4, 4, 5, 5, 5, 6, 6, 6, 7, 7, 7, 8, 8, 8, 9, 9, 9] @
      tiles TONG [1, 2, 2, 2, 3, 3, 3, 4, 4, 5, 6, 7, 7, 8, 9, 9] @
      tiles SUO [1, 1, 1, 2, 2, 2, 3, 3, 3, 4, 4, 4, 5, 5, 5, 6, 6, 6, 7, 7, 7, 8, 8, 8, 9, 9, 9] @
      tiles ZI [1, 2, 3, 3, 4, 4, 4, 5, 5, 5, 6, 6, 6, 7, 7, 7] @
      tiles HUA [3, 4, 5, 6, 2, 1] @
      tiles TONG [9] @
      tiles HUA [7] @
      tiles ZI [3, 2, 2, 1, 1] @
      tiles WAN [6, 5, 4, 3, 2, 1] @
      tiles TONG [7, 6] @
      tiles ZI [7, 6] @
      tiles SUO [9, 8, 7, 6, 5, 4, 3, 2, 1] @
      tiles TONG [5, 5] @
      tiles ZI [5, 4, 3, 2, 1] @
      tiles WAN [9, 8, 7, 3, 2, 1] @
      tiles TONG [6, 4, 9, 8, 8, 8, 7, 6, 5, 4] @
      tiles HUA [8] @
      tiles TONG [3, 2, 1, 1, 1]"

definition scenarioStart :: game where
  "scenarioStart = initialize scenarioRandom [101, 102, 103, 104] YAO_BAN_SAN (newGame emptyTable)"

definition scenarioDealt :: game where
  "scenarioDealt = emptyTable\<lparr>players := [
      \<lparr>userId = 101, position = 0, feng = Some DONG,
       handCards =
        [''tong_1'', ''tong_1'', ''tong_1'', ''tong_2'', ''tong_3'', ''tong_4'',
         ''tong_5'', ''tong_6'', ''tong_7'', ''tong_8'', ''tong_8'', ''tong_8'',
         ''tong_9'', ''tong_9''],
       discardedCards = [], exposedCards = [],
       flowerCards = [''hua_8'', ''hua_7''], isReady = False, score = 0,
       availableActions = None\<rparr>,
      \<lparr>userId = 102, position = 1, feng = Some NAN,
       handCards =
        [''tong_4'', ''tong_6'', ''wan_1'', ''wan_2'', ''wan_3'', ''wan_7'', ''wan_8'',
         ''wan_9'', ''zi_1'', ''zi_2'', ''zi_3'', ''zi_4'', ''zi_5''],
       discardedCards = [], exposedCards = [],
       flowerCards = [], isReady = False, score = 0,
       availableActions = None\<rparr>,
      \<lparr>userId = 103, position = 2, feng = Some XI,
       handCards =
        [''tong_5'', ''tong_5'', ''suo_1'', ''suo_2'', ''suo_3'', ''suo_4'', ''suo_5'',
         ''suo_6'', ''suo_7'', ''suo_8'', ''suo_9'', ''zi_6'', ''zi_7''],
       discardedCards = [], exposedCards = [],
       flowerCards = [], isReady = False, score = 0,
       availableActions = None\<rparr>,
      \<lparr>userId = 104, position = 3, feng = Some BEI,
       handCards =
        [''tong_6'', ''tong_7'', ''wan_1'', ''wan_2'', ''wan_3'', ''wan_4'', ''wan_5'',
         ''wan_6'', ''zi_1'', ''zi_1'', ''zi_2'', ''zi_2'', ''zi_3''],
       discardedCards = [], exposedCards = [],
       flowerCards = [], isReady = False, score = 0,
       availableActions = None\<rparr>],
     state := PLAYING, dataDeck := map generateId scenarioWall,
     deck :=
      tiles WAN [1, 1, 2, 2, 3, 3, 4, 4, 4, 5, 5, 5, 6, 6, 6, 7, 7, 7, 8, 8, 8, 9, 9, 9] @
      tiles TONG [1, 2, 2, 2, 3, 3, 3, 4, 4, 5, 6, 7, 7, 8, 9, 9] @
      tiles SUO [1, 1, 1, 2, 2, 2, 3, 3, 3, 4, 4, 4, 5, 5, 5, 6, 6, 6, 7, 7, 7, 8, 8, 8, 9, 9, 9] @
      tiles ZI [1, 2, 3, 3, 4, 4, 4, 5, 5, 5, 6, 6, 6, 7, 7, 7] @
      tiles HUA [3, 4, 5, 6, 2, 1]\<rparr>"

definition scenarioAfterDiscard :: game where
  "scenarioAfterDiscard = scenarioDealt\<lparr>players := [
      \<lparr>userId = 101, position = 0, feng = Some DONG,
       handCards =
        [''tong_1'', ''tong_1'', ''tong_1'', ''tong_2'', ''tong_3'', ''tong_4'',
         ''tong_6'', ''tong_7'', ''tong_8'', ''tong_8'', ''tong_8'', ''tong_9'', ''tong_9''],
       discardedCards = [''tong_5''], exposedCards = [],
       flowerCards = [''hua_8'', ''hua_7''], isReady = False, score = 0,
       availableActions = None\<rparr>,
      \<lparr>userId = 102, position = 1, feng = Some NAN,
       handCards =
        [''tong_4'', ''tong_6'', ''wan_1'', ''wan_2'', ''wan_3'', ''wan_7'', ''wan_8'',
         ''wan_9'', ''zi_1'', ''zi_2'', ''zi_3'', ''zi_4'', ''zi_5'', ''hua_2''],
       discardedCards = [], exposedCards = [],
       flowerCards = [''hua_1''], isReady = False, score = 0,
       availableActions = Some [CHI]\<rparr>,
      \<lparr>userId = 103, position = 2, feng = Some XI,
       handCards =
        [''tong_5'', ''tong_5'', ''suo_1'', ''suo_2'', ''suo_3'', ''suo_4'', ''suo_5'',
         ''suo_6'', ''suo_7'', ''suo_8'', ''suo_9'', ''zi_6'', ''zi_7''],
       discardedCards = [], exposedCards = [],
       flowerCards = [], isReady = False, score = 0,
       availableActions = Some [PENG]\<rparr>,
      \<lparr>userId = 104, position = 3, feng = Some BEI,
       handCards =
        [''tong_6'', ''tong_7'', ''wan_1'', ''wan_2'', ''wan_3'', ''wan_4'', ''wan_5'',
         ''wan_6'', ''zi_1'', ''zi_1'', ''zi_2'', ''zi_2'', ''zi_3''],
       discardedCards = [], exposedCards = [],
       flowerCards = [], isReady = False, score = 0,
       availableActions = None\<rparr>],
     currentPlayer := 1, lastDiscardedCard := Some ''tong_5'', lastAction := Some DISCARD,
     gameHistory := [\<lparr>hplayer = 0, haction = DISCARD, hcards = [''tong_5''], htimestamp = 1\<rparr>],
     deck :=
      tiles WAN [1, 1, 2, 2, 3, 3, 4, 4, 4, 5, 5, 5, 6, 6, 6, 7, 7, 7, 8, 8, 8, 9, 9, 9] @
      tiles TONG [1, 2, 2, 2, 3, 3, 3, 4, 4, 5, 6, 7, 7, 8, 9, 9] @
      tiles SUO [1, 1, 1, 2, 2, 2, 3, 3, 3, 4, 4, 4, 5, 5, 5, 6, 6, 6, 7, 7, 7, 8, 8, 8, 9, 9, 9] @
      tiles ZI [1, 2, 3, 3, 4, 4, 4, 5, 5, 5, 6, 6, 6, 7, 7, 7] @
      tiles HUA [3, 4, 5, 6]\<rparr>"

text \<open>The same table with the wall drawn down to nothing.\<close>

definition scenarioWallEmpty :: game where
  "scenarioWallEmpty = scenarioAfterDiscard\<lparr>deck := []\<rparr>"


section \<open>Card identity\<close>

lemma split_prefix:
  "d \<notin> set t \<Longrightarrow> split d (t @ d # rest) = t # split d rest"
  by (induction t) (auto split: list.splits)

lemma split_no_separator:
  "d \<notin> set t \<Longrightarrow> split d t = [t]"
  by (induction t) (auto split: list.splits)

lemma digit_roundtrip:
  assumes "0 \<le> v" "v \<le> 9"
  shows "parseInt (numToString (Num v)) = Num v \<and> CHR ''_'' \<notin> set (numToString (Num v))"
proof -
  from assms have "v = 0 \<or> v = 1 \<or> v = 2 \<or> v = 3 \<or> v = 4 \<or> v = 5 \<or> v = 6 \<or> v = 7 \<or> v = 8 \<or> v = 9"
    by arith
  then show ?thesis
    by (elim disjE) (simp_all add: natToString.simps parseInt_def parseUnsigned_def parseDigits_def
        digitsValue_def digitValue_def isWhiteSpace_def)
qed

lemma getCardById_generateId:
  assumes "CHR ''_'' \<notin> set t" "0 \<le> v" "v \<le> 9"
  shows "getCardById (generateId (Card t (Num v))) = Card t (Num v)"
proof -
  from digit_roundtrip[OF assms(2,3)]
  have p: "parseInt (numToString (Num v)) = Num v" and n: "CHR ''_'' \<notin> set (numToString (Num v))"
    by simp_all
  have "split (CHR ''_'') (t @ CHR ''_'' # numToString (Num v)) = [t, numToString (Num v)]"
    using split_prefix[OF assms(1)] split_no_separator[OF n] by simp
  then show ?thesis using p by (simp add: getCardById_def generateId_def Card_def)
qed

lemma deck_kinds:
  assumes "c \<in> set initializeDeck"
  shows "\<exists>t v. c = Card t (Num v) \<and> t \<in> {WAN, TONG, SUO, ZI, HUA} \<and> 1 \<le> v \<and> v \<le> 9"
proof -
  from assms have "ctype c \<in> {WAN, TONG, SUO, ZI, HUA} \<and> (\<exists>v. cvalue c = Num v \<and> 1 \<le> v \<and> v \<le> 9)"
    by (auto simp: initializeDeck_def Card_def)
  then obtain v where "ctype c \<in> {WAN, TONG, SUO, ZI, HUA}" "cvalue c = Num v" "1 \<le> v" "v \<le> 9"
    by blast
  then have "c = Card (ctype c) (Num v) \<and> ctype c \<in> {WAN, TONG, SUO, ZI, HUA} \<and> 1 \<le> v \<and> v \<le> 9"
    by (simp add: Card_def)
  then show ?thesis by blast
qed

lemma deck_roundtrip:
  assumes "c \<in> set initializeDeck"
  shows "getCardById (generateId c) = c"
proof -
  from deck_kinds[OF assms] obtain t v where c: "c = Card t (Num v)"
    and t: "t \<in> {WAN, TONG, SUO, ZI, HUA}" and v: "1 \<le> v" "v \<le> 9" by blast
  from t have "CHR ''_'' \<notin> set t" by (auto simp: WAN_def TONG_def SUO_def ZI_def HUA_def)
  then show ?thesis using getCardById_generateId[of t v] v c by simp
qed

lemma deck_equals:
  assumes "c \<in> set initializeDeck" "d \<in> set initializeDeck"
  shows "equals c d \<longleftrightarrow> c = d"
proof -
  from deck_kinds[OF assms(1)] deck_kinds[OF assms(2)] show ?thesis
    by (auto simp: equals_def Card_def)
qed

section \<open>Facts about the turn\<close>

lemma isWinningHand_False: "isWinningHand hand exposed = False"
  by (simp add: isWinningHand_def Let_def)

lemma canHu_never: "canHu g i c \<noteq> Inr True"
  by (simp add: canHu_def isWinningHand_False Let_def split: option.splits)

lemma map_enumerate_invariant:
  assumes "\<And>i p. h (f (i, p)) = h p"
  shows "map h (map f (enumerate n xs)) = map h xs"
  using assms by (induction xs arbitrary: n) simp_all

lemma offerActions_only_actions:
  "\<exists>acts. offerActions g c i p = p\<lparr>availableActions := acts\<rparr>"
proof (cases "i = currentPlayer g \<or> actionsFor g i c = []")
  case True
  then have "offerActions g c i p = p\<lparr>availableActions := availableActions p\<rparr>"
    by (auto simp: offerActions_def)
  then show ?thesis by blast
next
  case False
  then show ?thesis by (auto simp: offerActions_def Let_def)
qed

lemma checkPlayerActions_fields:
  "deck (checkPlayerActions c g) = deck g"
  "currentPlayer (checkPlayerActions c g) = currentPlayer g"
  "state (checkPlayerActions c g) = state g"
  "winner (checkPlayerActions c g) = winner g"
  "dealer (checkPlayerActions c g) = dealer g"
  "length (players (checkPlayerActions c g)) = length (players g)"
  by (simp_all add: checkPlayerActions_def)

lemma checkPlayerActions_players:
  fixes h :: "player \<Rightarrow> 'a"
  assumes "\<And>p acts. h (p\<lparr>availableActions := acts\<rparr>) = h p"
  shows "map h (players (checkPlayerActions c g)) = map h (players g)"
proof -
  have "\<And>i p. h ((\<lambda>(index, p). offerActions g c index p) (i, p)) = h p"
  proof -
    fix i p
    from offerActions_only_actions[of g c i p] obtain acts where
      "offerActions g c i p = p\<lparr>availableActions := acts\<rparr>" by blast
    then show "h ((\<lambda>(index, p). offerActions g c index p) (i, p)) = h p"
      using assms by simp
  qed
  then show ?thesis unfolding checkPlayerActions_def 
    by (simp add: map_enumerate_invariant del: map_map)
qed

lemma checkPlayerActions_nth:
  fixes h :: "player \<Rightarrow> 'a"
  assumes "\<And>p acts. h (p\<lparr>availableActions := acts\<rparr>) = h p" "i < length (players g)"
  shows "h (players (checkPlayerActions c g) ! i) = h (players g ! i)"
proof -
  have "map h (players (checkPlayerActions c g)) ! i = map h (players g) ! i"
    using checkPlayerActions_players[of h c g] assms(1) by simp
  then show ?thesis using assms(2) by (simp add: checkPlayerActions_fields)
qed






section \<open>Facts about the tile total\<close>







lemma length_initializeDeck: "length initializeDeck = 144"
  by code_simp












lemma length_remove1_member:
  "x \<in> set xs \<Longrightarrow> length (remove1 x xs) + 1 = length xs"
  by (induction xs) auto



section \<open>The concrete round, evaluated\<close>

text \<open>
  The random run \<open>scenarioRandom\<close> stays within bounds and shuffles the fresh deck into
  \<open>scenarioWall\<close>; dealing from it gives \<open>scenarioDealt\<close>, where the dealer had a flower
  whose replacement was a flower again; the dealer's discard of \<open>tong_5\<close> gives
  \<open>scenarioAfterDiscard\<close>.
\<close>

lemma scenario_picks_bounded: "\<forall>i. scenarioRandom i \<le> i"
proof -
  have a: "list_all (\<lambda>(i, j). j \<le> i) (enumerate 0 scenarioPicks)" by code_simp
  have "\<And>i. i < length scenarioPicks \<Longrightarrow> scenarioPicks ! i \<le> i"
  proof -
    fix i assume i: "i < length scenarioPicks"
    then have "(i, scenarioPicks ! i) \<in> set (enumerate 0 scenarioPicks)"
      by (metis add_0 in_set_conv_nth length_enumerate nth_enumerate_eq)
    with a show "scenarioPicks ! i \<le> i" by (auto simp: list_all_iff)
  qed
  then show ?thesis by (simp add: scenarioRandom_def)
qed

lemma scenario_shuffle: "shuffle scenarioRandom initializeDeck = scenarioWall"
  by code_simp

lemma scenario_deal: "dealCards scenarioStart = (None, scenarioDealt)"
  by code_simp

lemma scenario_discard: "playerDiscard 1 0 ''tong_5'' scenarioDealt = (None, scenarioAfterDiscard)"
  by code_simp

lemma scenario_reachable: "reachable scenarioDealt" "reachable scenarioAfterDiscard"
proof -
  show d: "reachable scenarioDealt"
    using reachable.deal[OF scenario_picks_bounded, of "[101, 102, 103, 104]" YAO_BAN_SAN emptyTable scenarioDealt]
      scenario_deal by (simp add: scenarioStart_def)
  show "reachable scenarioAfterDiscard"
    by (rule reachable.discard[OF d scenario_discard])
qed



lemma nextPlayer_draw:
  assumes "nextPlayer g = (None, g')" "deck g \<noteq> []"
  shows "(currentPlayer g + 1) mod 4 < length (players g)
    \<and> currentPlayer g' = (currentPlayer g + 1) mod 4
    \<and> length (players g') = length (players g)
    \<and> state g' = state g \<and> winner g' = winner g
    \<and> (\<not> isFlower (last (deck g)) \<longrightarrow>
          handCards (players g' ! ((currentPlayer g + 1) mod 4))
            = handCards (players g ! ((currentPlayer g + 1) mod 4)) @ [generateId (last (deck g))]
          \<and> flowerCards (players g' ! ((currentPlayer g + 1) mod 4))
            = flowerCards (players g ! ((currentPlayer g + 1) mod 4))
          \<and> deck g' = butlast (deck g))
    \<and> (isFlower (last (deck g)) \<longrightarrow>
          flowerCards (players g' ! ((currentPlayer g + 1) mod 4))
            = flowerCards (players g ! ((currentPlayer g + 1) mod 4)) @ [generateId (last (deck g))]
          \<and> (if butlast (deck g) = []
              then handCards (players g' ! ((currentPlayer g + 1) mod 4))
                     = handCards (players g ! ((currentPlayer g + 1) mod 4))
                   \<and> deck g' = []
              else handCards (players g' ! ((currentPlayer g + 1) mod 4))
                     = handCards (players g ! ((currentPlayer g + 1) mod 4))
                       @ [generateId (last (butlast (deck g)))]
                   \<and> deck g' = butlast (butlast (deck g))))"
proof -
  let ?n = "(currentPlayer g + 1) mod 4"
  from assms obtain p where p: "playerAt g ?n = Some p"
    by (auto simp: nextPlayer_def hasCards_def Let_def playerAt_def split: option.splits if_splits)
  then have n: "?n < length (players g)" and pn: "players g ! ?n = p"
    by (auto simp: playerAt_def split: if_splits)
  have b: "butlast (deck g) \<noteq> [] \<longleftrightarrow> Suc 0 < length (deck g)"
  proof -
    have "butlast (deck g) \<noteq> [] \<longleftrightarrow> length (butlast (deck g)) \<noteq> 0" by (simp del: length_butlast)
    then show ?thesis by auto
  qed
  from assms p n pn b show ?thesis
    by (auto simp: nextPlayer_def hasCards_def Let_def playerAt_def split: if_splits)
qed

lemma next_seat_differs: "(pos + 1) mod 4 \<noteq> (pos::nat)"
  by presburger


lemma scenarioWallEmpty_discard:
  "fst (playerDiscard 2 1 ''tong_4'' scenarioWallEmpty) = None"
  "state (snd (playerDiscard 2 1 ''tong_4'' scenarioWallEmpty)) = PLAYING"
  "winner (snd (playerDiscard 2 1 ''tong_4'' scenarioWallEmpty)) = None"
  "currentPlayer (snd (playerDiscard 2 1 ''tong_4'' scenarioWallEmpty)) = 2"
  by code_simp+


lemma checkPlayerActions_seat:
  assumes "i < length (players g)"
  shows "players (checkPlayerActions c g) ! i = offerActions g c i (players g ! i)"
  using assms by (simp add: checkPlayerActions_def nth_enumerate_eq)

lemma priority_order:
  "(if a then [HU] else []) @ (if b then [GANG] else []) @ (if p then [PENG] else []) @ (if d then [CHI] else [])
     = filter (\<lambda>x. x \<in> set ((if a then [HU] else []) @ (if b then [GANG] else [])
                                @ (if p then [PENG] else []) @ (if d then [CHI] else [])))
         [HU, GANG, PENG, CHI]"
  by (cases a; cases b; cases p; cases d) simp_all





section \<open>Facts about the flower sweep of the deal\<close>

text \<open>
  A pass that ends with \<open>hasFlowers\<close> false has found no flower at any of the four
  seats and has changed nothing; so when \<open>handleFlowerCards\<close>, and with it
  \<open>dealCards\<close>, returns, the hands of seats 0 to 3 hold no flower.
\<close>

lemma sweepSeat_quiet:
  assumes "sweepSeat i (h, g) = (None, False, g')"
  shows "g' = g \<and> (dealer g + i) mod 4 < length (players g)
         \<and> filter isFlowerId (handCards (players g ! ((dealer g + i) mod 4))) = [] \<and> \<not> h"
  using assms
  by (auto simp: sweepSeat_def Let_def playerAt_def split: option.splits if_splits prod.splits)

lemma sweepSeat_flag: "sweepSeat i (True, g) = (e, h', g') \<Longrightarrow> h'"
  by (auto simp: sweepSeat_def Let_def split: option.splits if_splits prod.splits)

lemma sweepPass_flag: "sweepPass is (True, g) = (e, h', g') \<Longrightarrow> h'"
proof (induction "is" arbitrary: g)
  case Nil then show ?case by simp
next
  case (Cons i "is")
  obtain e1 h1 g1 where s: "sweepSeat i (True, g) = (e1, h1, g1)" by (cases "sweepSeat i (True, g)") auto
  from sweepSeat_flag[OF s] have h1: h1 .
  show ?case
  proof (cases e1)
    case None
    with Cons.prems s h1 have "sweepPass is (True, g1) = (e, h', g')" by simp
    then show ?thesis by (rule Cons.IH)
  next
    case (Some x)
    with Cons.prems s h1 show ?thesis by simp
  qed
qed

lemma sweepPass_quiet:
  "sweepPass is (False, g) = (None, False, g') \<Longrightarrow>
     g' = g \<and> (\<forall>i \<in> set is. (dealer g + i) mod 4 < length (players g)
                 \<and> filter isFlowerId (handCards (players g ! ((dealer g + i) mod 4))) = [])"
proof (induction "is")
  case Nil then show ?case by simp
next
  case (Cons i "is")
  obtain e1 h1 g1 where s: "sweepSeat i (False, g) = (e1, h1, g1)" by (cases "sweepSeat i (False, g)") auto
  with Cons.prems have e1: "e1 = None" and r: "sweepPass is (h1, g1) = (None, False, g')"
    by (auto split: option.splits)
  have "\<not> h1" using sweepPass_flag[of "is" g1 None False g'] r by (cases h1) auto
  with s e1 have s': "sweepSeat i (False, g) = (None, False, g1)" by simp
  from sweepSeat_quiet[OF s'] have g1: "g1 = g" and here: "(dealer g + i) mod 4 < length (players g)"
    "filter isFlowerId (handCards (players g ! ((dealer g + i) mod 4))) = []" by simp_all
  from r \<open>\<not> h1\<close> g1 have "sweepPass is (False, g) = (None, False, g')" by simp
  from Cons.IH[OF this] here show ?case by simp
qed

lemma every_seat_swept:
  assumes "j < 4"
  shows "\<exists>i \<in> set [0, 1, 2, 3::nat]. (d + i) mod 4 = j"
proof -
  have m: "\<And>i. (d + i) mod 4 = (d mod 4 + i) mod 4" by (simp add: mod_add_left_eq)
  have "d mod 4 < 4" by simp
  then have k: "d mod 4 = 0 \<or> d mod 4 = 1 \<or> d mod 4 = 2 \<or> d mod 4 = 3" by linarith
  from assms have j: "j = 0 \<or> j = 1 \<or> j = 2 \<or> j = 3" by linarith
  from k j show ?thesis unfolding m by (elim disjE) simp_all
qed

lemma handleFlowerCards_no_flower:
  "handleFlowerCards g = (None, g') \<Longrightarrow> j < 4 \<Longrightarrow>
     j < length (players g') \<and> filter isFlowerId (handCards (players g' ! j)) = []"
proof (induction g arbitrary: g' rule: handleFlowerCards.induct)
  case (1 g)
  obtain e1 h1 g1 where s: "sweepPass [0, 1, 2, 3] (False, g) = (e1, h1, g1)"
    by (cases "sweepPass [0, 1, 2, 3] (False, g)") auto
  with "1.prems"(1) have e1: "e1 = None"
    by (auto simp: handleFlowerCards.simps[of g] split: option.splits)
  show ?case
  proof (cases h1)
    case True
    with "1.prems"(1) s e1 have "handleFlowerCards g1 = (None, g')"
      by (simp add: handleFlowerCards.simps[of g])
    from "1.IH"[OF s[symmetric] e1 refl True this "1.prems"(2)] show ?thesis .
  next
    case False
    with "1.prems"(1) s e1 have g': "g' = g1" by (simp add: handleFlowerCards.simps[of g])
    from s e1 False have "sweepPass [0, 1, 2, 3] (False, g) = (None, False, g1)" by simp
    from sweepPass_quiet[OF this] have g1: "g1 = g"
      and all: "\<forall>i \<in> set [0, 1, 2, 3]. (dealer g + i) mod 4 < length (players g)
                 \<and> filter isFlowerId (handCards (players g ! ((dealer g + i) mod 4))) = []" by simp_all
    from every_seat_swept[OF "1.prems"(2), of "dealer g"] obtain i where
      "i \<in> set [0, 1, 2, 3]" "(dealer g + i) mod 4 = j" by blast
    with all g' g1 show ?thesis by auto
  qed
qed

lemma dealCards_no_flower:
  assumes "dealCards g = (None, g')" "j < 4"
  shows "j < length (players g') \<and> filter isFlowerId (handCards (players g' ! j)) = []"
proof -
  obtain ps rest where dl: "dealLoop (dealer g) 0 (players g) (deck g) = (ps, rest)"
    by (cases "dealLoop (dealer g) 0 (players g) (deck g)")
  obtain e1 g1 where hf: "handleFlowerCards (g\<lparr>state := DEALING, players := ps, deck := rest\<rparr>) = (e1, g1)"
    by (cases "handleFlowerCards (g\<lparr>state := DEALING, players := ps, deck := rest\<rparr>)")
  from assms(1) dl hf have "e1 = None" and g': "g' = g1\<lparr>state := PLAYING\<rparr>"
    by (auto simp: dealCards_def split: option.splits)
  with hf handleFlowerCards_no_flower[OF _ assms(2), of _ g1] show ?thesis by simp
qed

section \<open>The wall can run out\<close>

text \<open>
  While the wall has a tile, the current seat of a round in play can discard, and the
  turn advance that follows shortens the wall and leaves the round in play. So from the
  dealt state of the concrete round a state with an empty wall is reached in which the
  game is still \<open>PLAYING\<close>, with no winner, and the current seat's discard is accepted.
\<close>

lemma nextPlayer_succeeds:
  "(currentPlayer g + 1) mod 4 < length (players g) \<Longrightarrow> \<exists>g'. nextPlayer g = (None, g')"
  by (auto simp: nextPlayer_def Let_def playerAt_def)

lemma playerDiscard_accepted:
  assumes "state g = PLAYING" "currentPlayer g = pos" "playerAt g pos = Some p"
    "cardId \<in> set (handCards p)"
  shows "playerDiscard now pos cardId g =
     nextPlayer (checkPlayerActions cardId
       (g\<lparr>players := (players g)[pos := p\<lparr>handCards := remove1 cardId (handCards p),
                                             discardedCards := discardedCards p @ [cardId]\<rparr>],
          lastDiscardedCard := Some cardId, lastAction := Some DISCARD,
          gameHistory := gameHistory g @
            [\<lparr>hplayer = pos, haction = DISCARD, hcards = [cardId], htimestamp = now\<rparr>]\<rparr>))"
  using assms by (simp add: playerDiscard_def Let_def)

lemma nextPlayer_other_seats:
  assumes "nextPlayer g = (None, g')" "j \<noteq> (currentPlayer g + 1) mod 4"
  shows "players g' ! j = players g ! j"
  using assms
  by (auto simp: nextPlayer_def Let_def playerAt_def split: if_splits option.splits)

lemma discard_keeps_round_in_play:
  assumes "roundInPlay g" "deck g \<noteq> []"
  shows "\<exists>now pos c g'. playerDiscard now pos c g = (None, g')
     \<and> length (deck g') < length (deck g) \<and> winner g' = winner g \<and> roundInPlay g'"
proof -
  from assms have st: "state g = PLAYING" and len: "4 \<le> length (players g)"
    and cur4: "currentPlayer g < 4"
    and hands: "\<forall>i < 4. 13 \<le> length (handCards (players g ! i))"
    and mine: "14 \<le> length (handCards (players g ! currentPlayer g))"
    by (simp_all add: roundInPlay_def)
  let ?pos = "currentPlayer g"
  let ?n = "(?pos + 1) mod 4"
  let ?p = "players g ! ?pos"
  let ?c = "hd (handCards ?p)"
  let ?g1 = "g\<lparr>players := (players g)[?pos := ?p\<lparr>handCards := remove1 ?c (handCards ?p),
                                             discardedCards := discardedCards ?p @ [?c]\<rparr>],
          lastDiscardedCard := Some ?c, lastAction := Some DISCARD,
          gameHistory := gameHistory g @
            [\<lparr>hplayer = ?pos, haction = DISCARD, hcards = [?c], htimestamp = 0\<rparr>]\<rparr>"
  let ?g2 = "checkPlayerActions ?c ?g1"
  from len cur4 have pa: "playerAt g ?pos = Some ?p" by (simp add: playerAt_def)
  from mine have nonempty: "handCards ?p \<noteq> []" by auto
  then have c: "?c \<in> set (handCards ?p)" by simp
  have pd: "playerDiscard 0 ?pos ?c g = nextPlayer ?g2"
    by (rule playerDiscard_accepted[OF st refl pa c])
  have f2: "deck ?g2 = deck g" "currentPlayer ?g2 = ?pos" "length (players ?g2) = length (players g)"
    "state ?g2 = state g" "winner ?g2 = winner g"
    by (simp_all add: checkPlayerActions_fields)
  have n4: "?n < 4" by simp
  with len have nl: "?n < length (players g)" by linarith
  then have "(currentPlayer ?g2 + 1) mod 4 < length (players ?g2)" by (simp add: f2)
  from nextPlayer_succeeds[OF this] obtain g' where n: "nextPlayer ?g2 = (None, g')" by blast
  from assms(2) have ne: "deck ?g2 \<noteq> []" by (simp add: f2)
  note nd = nextPlayer_draw[OF n ne, unfolded f2]
  have h2: "\<And>j. j < length (players g) \<Longrightarrow>
              handCards (players ?g2 ! j) = handCards (players ?g1 ! j)"
  proof -
    fix j assume "j < length (players g)"
    then have "j < length (players ?g1)" by simp
    then show "handCards (players ?g2 ! j) = handCards (players ?g1 ! j)"
      by (intro checkPlayerActions_nth) simp_all
  qed
  have neq: "?pos \<noteq> ?n" using next_seat_differs[of ?pos] by simp
  from length_remove1_member[OF c] mine
  have after: "13 \<le> length (remove1 ?c (handCards ?p))" by linarith
  have g1hands: "\<And>j. j < 4 \<Longrightarrow> 13 \<le> length (handCards (players ?g1 ! j))"
  proof -
    fix j :: nat assume j: "j < 4"
    with len have jl: "j < length (players g)" by linarith
    show "13 \<le> length (handCards (players ?g1 ! j))"
    proof (cases "j = ?pos")
      case True
      with jl after show ?thesis by simp
    next
      case False
      with hands j show ?thesis by simp
    qed
  qed
  have nexthand: "handCards (players ?g2 ! ?n) = handCards (players g ! ?n)"
    using h2[OF nl] neq by simp
  from assms(2) have l1: "length (butlast (deck g)) < length (deck g)" by simp
  then have l2: "length (butlast (butlast (deck g))) < length (deck g)" by simp
  have short: "length (deck g') < length (deck g)"
    using nd l1 l2 assms(2) by (cases "isFlower (last (deck g))"; cases "butlast (deck g) = []") auto
  have nextlen: "length (handCards (players g ! ?n)) \<le> length (handCards (players g' ! ?n))"
    using nd nexthand by (cases "isFlower (last (deck g))"; cases "butlast (deck g) = []") auto
  have nextdrawn: "deck g' \<noteq> [] \<longrightarrow> length (handCards (players g' ! ?n)) = Suc (length (handCards (players g ! ?n)))"
    using nd nexthand by (cases "isFlower (last (deck g))"; cases "butlast (deck g) = []") auto
  have allhands: "\<forall>j < 4. 13 \<le> length (handCards (players g' ! j))"
  proof (intro allI impI)
    fix j :: nat assume j: "j < 4"
    with len have jl: "j < length (players g)" by linarith
    show "13 \<le> length (handCards (players g' ! j))"
    proof (cases "j = ?n")
      case True
      from hands n4 have "13 \<le> length (handCards (players g ! ?n))" by blast
      with nextlen True show ?thesis by simp
    next
      case False
      then have "j \<noteq> (currentPlayer ?g2 + 1) mod 4" by (simp add: f2)
      from nextPlayer_other_seats[OF n this] have "players g' ! j = players ?g2 ! j" .
      with h2[OF jl] g1hands[OF j] show ?thesis by simp
    qed
  qed
  have cur': "currentPlayer g' = ?n" using nd by simp
  have mine': "deck g' \<noteq> [] \<longrightarrow> 14 \<le> length (handCards (players g' ! currentPlayer g'))"
  proof
    assume "deck g' \<noteq> []"
    with nextdrawn have "length (handCards (players g' ! ?n)) = Suc (length (handCards (players g ! ?n)))"
      by simp
    moreover from hands n4 have "13 \<le> length (handCards (players g ! ?n))" by blast
    ultimately show "14 \<le> length (handCards (players g' ! currentPlayer g'))"
      using cur' by simp
  qed
  from nd st len have "state g' = PLAYING" "4 \<le> length (players g')" "winner g' = winner g" by simp_all
  with cur' n4 allhands mine' have "roundInPlay g'" by (simp add: roundInPlay_def)
  with pd n short \<open>winner g' = winner g\<close> show ?thesis by metis
qed

lemma wall_can_run_out:
  assumes "reachable g" "roundInPlay g"
  shows "\<exists>g'. reachable g' \<and> deck g' = [] \<and> roundInPlay g' \<and> winner g' = winner g"
  using assms
proof (induction "length (deck g)" arbitrary: g rule: less_induct)
  case less
  show ?case
  proof (cases "deck g = []")
    case True
    with less.prems show ?thesis by blast
  next
    case False
    from discard_keeps_round_in_play[OF less.prems(2) False]
    obtain now pos c g1 where d: "playerDiscard now pos c g = (None, g1)"
      and s: "length (deck g1) < length (deck g)" and w: "winner g1 = winner g"
      and k: "roundInPlay g1" by blast
    have r1: "reachable g1" by (rule reachable.discard[OF less.prems(1) d])
    from less.hyps[OF s r1 k] w show ?thesis by auto
  qed
qed

lemma discard_on_empty_wall_accepted:
  assumes "roundInPlay g" "deck g = []"
  shows "\<exists>now pos c g'. playerDiscard now pos c g = (None, g')"
proof -
  from assms have st: "state g = PLAYING" and len: "4 \<le> length (players g)"
    and cur4: "currentPlayer g < 4"
    and hands: "\<forall>i < 4. 13 \<le> length (handCards (players g ! i))"
    by (simp_all add: roundInPlay_def)
  let ?pos = "currentPlayer g"
  let ?p = "players g ! ?pos"
  let ?c = "hd (handCards ?p)"
  from len cur4 have pa: "playerAt g ?pos = Some ?p" by (simp add: playerAt_def)
  from hands cur4 have "13 \<le> length (handCards ?p)" by blast
  then have "handCards ?p \<noteq> []" by auto
  then have c: "?c \<in> set (handCards ?p)" by simp
  note pd = playerDiscard_accepted[OF st refl pa c, of 0]
  have "(currentPlayer (checkPlayerActions ?c (g\<lparr>players := (players g)[?pos := ?p\<lparr>handCards := remove1 ?c (handCards ?p),
                                             discardedCards := discardedCards ?p @ [?c]\<rparr>],
          lastDiscardedCard := Some ?c, lastAction := Some DISCARD,
          gameHistory := gameHistory g @
            [\<lparr>hplayer = ?pos, haction = DISCARD, hcards = [?c], htimestamp = 0\<rparr>]\<rparr>)) + 1) mod 4
        < length (players (checkPlayerActions ?c (g\<lparr>players := (players g)[?pos := ?p\<lparr>handCards := remove1 ?c (handCards ?p),
                                             discardedCards := discardedCards ?p @ [?c]\<rparr>],
          lastDiscardedCard := Some ?c, lastAction := Some DISCARD,
          gameHistory := gameHistory g @
            [\<lparr>hplayer = ?pos, haction = DISCARD, hcards = [?c], htimestamp = 0\<rparr>]\<rparr>)))"
    using len by (simp add: checkPlayerActions_fields less_le_trans[OF mod_less_divisor])
  from nextPlayer_succeeds[OF this] pd show ?thesis by metis
qed

lemma empty_wall_reachable:
  "\<exists>g now pos c g'. reachable g \<and> deck g = [] \<and> state g = PLAYING \<and> winner g = None
      \<and> playerDiscard now pos c g = (None, g')"
proof -
  have h: "\<And>i. i < 4 \<Longrightarrow> 13 \<le> length (handCards (players scenarioDealt ! i))"
  proof -
    fix i :: nat assume "i < 4"
    then consider "i = 0" | "i = 1" | "i = 2" | "i = 3" by linarith
    then show "13 \<le> length (handCards (players scenarioDealt ! i))"
      by cases (simp_all add: scenarioDealt_def)
  qed
  have "state scenarioDealt = PLAYING" "4 \<le> length (players scenarioDealt)"
    "currentPlayer scenarioDealt < 4"
    "14 \<le> length (handCards (players scenarioDealt ! currentPlayer scenarioDealt))"
    by (simp_all add: scenarioDealt_def emptyTable_def)
  with h have k: "roundInPlay scenarioDealt" by (simp add: roundInPlay_def)
  have w: "winner scenarioDealt = None" by (simp add: scenarioDealt_def emptyTable_def)
  from wall_can_run_out[OF scenario_reachable(1) k] obtain g where
    g: "reachable g" "deck g = []" "roundInPlay g" "winner g = winner scenarioDealt" by blast
  from discard_on_empty_wall_accepted[OF g(3) g(2)] obtain now pos c g' where
    "playerDiscard now pos c g = (None, g')" by blast
  moreover from g(3) have "state g = PLAYING" by (simp add: roundInPlay_def)
  ultimately show ?thesis using g w by metis
qed

section \<open>The claims\<close>

subsection \<open>C1: tile conservation\<close>




subsection \<open>C2: the win check\<close>

text \<open>
  Claim C2 at the hand of the specification's example: the dealer's fourteen tiles after
  the deal are 1-1-1, 2-3-4, 5-6-7, 8-8-8 and 9-9 of one suit, with no meld exposed, and
  \<open>canHu\<close> (through \<open>isWinningHand\<close>) answers \<open>false\<close>.
\<close>

theorem complete_hand_not_accepted:
  "handCards (players scenarioDealt ! 0) =
     [''tong_1'', ''tong_1'', ''tong_1'', ''tong_2'', ''tong_3'', ''tong_4'', ''tong_5'', ''tong_6'',
      ''tong_7'', ''tong_8'', ''tong_8'', ''tong_8'', ''tong_9'', ''tong_9'']
   \<and> exposedCards (players scenarioDealt ! 0) = []
   \<and> canHu scenarioDealt 0 None = Inr False
   \<and> isWinningHand (handCards (players scenarioDealt ! 0)) (exposedCards (players scenarioDealt ! 0)) = False"
  by (simp add: scenarioDealt_def emptyTable_def canHu_def playerAt_def isWinningHand_False)

subsection \<open>C3: claims on a discard\<close>

text \<open>
  Claim C3, as the code has it. \<open>checkPlayerActions\<close> makes no choice between seats: for
  every seat other than the discarder (with no actions pending from before) it records
  the list of all claims that seat is eligible for, in the order Hu, Gang, Peng, Chi, or
  records nothing when there is none. Each claim is on the list exactly when its own
  test holds for that seat (Chi only at the seat after the discarder), whatever the
  other seats may claim; the discarder, the current seat, the state and the winner are
  as they were.
\<close>

theorem every_eligible_claim_is_recorded:
  assumes "i < length (players g)" "i \<noteq> currentPlayer g" "availableActions (players g ! i) = None"
  shows "availableActions (players (checkPlayerActions c g) ! i)
           = (if actionsFor g i c = [] then None else Some (actionsFor g i c))
    \<and> actionsFor g i c = filter (\<lambda>a. a \<in> set (actionsFor g i c)) [HU, GANG, PENG, CHI]
    \<and> (HU \<in> set (actionsFor g i c) \<longleftrightarrow> canHu g i (Some c) = Inr True)
    \<and> (GANG \<in> set (actionsFor g i c) \<longleftrightarrow> canGang g i c = Inr True)
    \<and> (PENG \<in> set (actionsFor g i c) \<longleftrightarrow> canPeng g i c = Inr True)
    \<and> (CHI \<in> set (actionsFor g i c) \<longleftrightarrow> i = (currentPlayer g + 1) mod 4 \<and> canChi g i c = Inr True)
    \<and> (currentPlayer g < length (players g)
          \<longrightarrow> players (checkPlayerActions c g) ! currentPlayer g = players g ! currentPlayer g)
    \<and> currentPlayer (checkPlayerActions c g) = currentPlayer g
    \<and> state (checkPlayerActions c g) = state g
    \<and> winner (checkPlayerActions c g) = winner g"
proof -
  have a: "availableActions (players (checkPlayerActions c g) ! i)
           = (if actionsFor g i c = [] then None else Some (actionsFor g i c))"
    using assms by (simp add: checkPlayerActions_seat offerActions_def Let_def)
  have m: "(HU \<in> set (actionsFor g i c) \<longleftrightarrow> canHu g i (Some c) = Inr True)"
    "(GANG \<in> set (actionsFor g i c) \<longleftrightarrow> canGang g i c = Inr True)"
    "(PENG \<in> set (actionsFor g i c) \<longleftrightarrow> canPeng g i c = Inr True)"
    "(CHI \<in> set (actionsFor g i c) \<longleftrightarrow> i = (currentPlayer g + 1) mod 4 \<and> canChi g i c = Inr True)"
    by (auto simp: actionsFor_def)
  have f: "actionsFor g i c = filter (\<lambda>a. a \<in> set (actionsFor g i c)) [HU, GANG, PENG, CHI]"
    unfolding actionsFor_def by (rule priority_order)
  have d: "currentPlayer g < length (players g)
          \<longrightarrow> players (checkPlayerActions c g) ! currentPlayer g = players g ! currentPlayer g"
    by (simp add: checkPlayerActions_seat offerActions_def)
  from a m f d show ?thesis by (simp add: checkPlayerActions_fields)
qed

theorem every_eligible_claim_is_recorded_witness:
  "availableActions (players scenarioDealt ! 2) = None \<and> currentPlayer scenarioDealt = 0
   \<and> actionsFor scenarioDealt 2 ''tong_5'' = [PENG]
   \<and> actionsFor scenarioDealt 1 ''tong_5'' = [CHI]
   \<and> availableActions (players (checkPlayerActions ''tong_5'' scenarioDealt) ! 2) = Some [PENG]
   \<and> availableActions (players (checkPlayerActions ''tong_5'' scenarioDealt) ! 1) = Some [CHI]
   \<and> canPeng scenarioDealt 2 ''tong_5'' = Inr True
   \<and> canChi scenarioDealt 1 ''tong_5'' = Inr True"
proof -
  have l: "2 < length (players scenarioDealt)" "1 < length (players scenarioDealt)"
    by (simp_all add: scenarioDealt_def)
  have c: "2 \<noteq> currentPlayer scenarioDealt" "1 \<noteq> currentPlayer scenarioDealt"
    "currentPlayer scenarioDealt = 0"
    by (simp_all add: scenarioDealt_def emptyTable_def)
  have n: "availableActions (players scenarioDealt ! 2) = None"
    "availableActions (players scenarioDealt ! 1) = None"
    by (simp_all add: scenarioDealt_def)
  have a: "actionsFor scenarioDealt 2 ''tong_5'' = [PENG]" "actionsFor scenarioDealt 1 ''tong_5'' = [CHI]"
    by code_simp+
  from every_eligible_claim_is_recorded[OF l(1) c(1) n(1), of "''tong_5''"]
       every_eligible_claim_is_recorded[OF l(2) c(2) n(2), of "''tong_5''"] a n c
  show ?thesis by simp
qed

text \<open>
  The claim fails as stated: after the dealer's discard of \<open>tong_5\<close>, the Chi of seat 1
  is kept although seat 2 holds a Peng on the same tile, no seat is selected, and the
  turn has already advanced to seat 1, which has drawn.
\<close>

theorem claims_all_recorded_turn_advances:
  "playerDiscard 1 0 ''tong_5'' scenarioDealt = (None, scenarioAfterDiscard)
   \<and> map availableActions (players scenarioDealt) = [None, None, None, None]
   \<and> map availableActions (players scenarioAfterDiscard) = [None, Some [CHI], Some [PENG], None]
   \<and> currentPlayer scenarioDealt = 0 \<and> currentPlayer scenarioAfterDiscard = 1
   \<and> length (handCards (players scenarioDealt ! 1)) = 13
   \<and> length (handCards (players scenarioAfterDiscard ! 1)) = 14"
  using scenario_discard by (simp add: scenarioAfterDiscard_def scenarioDealt_def emptyTable_def)

subsection \<open>C4: flowers after a sweep\<close>

text \<open>
  Claim C4 at the sweep of a turn: seat 1 draws the flower \<open>hua_1\<close> after the dealer's
  discard, the replacement is the flower \<open>hua_2\<close>, and it stays in the concealed hand.
  The sweep of the deal does what the claim says: by \<open>dealCards_no_flower\<close> no hand
  holds a flower when \<open>dealCards\<close> returns.
\<close>

theorem replacement_flower_stays_in_hand:
  "playerDiscard 1 0 ''tong_5'' scenarioDealt = (None, scenarioAfterDiscard)
   \<and> handCards (players scenarioAfterDiscard ! 1) = handCards (players scenarioDealt ! 1) @ [''hua_2'']
   \<and> flowerCards (players scenarioAfterDiscard ! 1) = [''hua_1'']
   \<and> isFlower (getCardById ''hua_2'')"
proof -
  have "isFlower (getCardById ''hua_2'')" by code_simp
  then show ?thesis using scenario_discard
    by (simp add: scenarioAfterDiscard_def scenarioDealt_def emptyTable_def)
qed

subsection \<open>C5: who may chi\<close>


subsection \<open>C6: the exhausted wall\<close>

text \<open>
  Claim C6, as the code has it. With an empty wall \<open>nextPlayer\<close> changes nothing but the
  current seat, which becomes \<open>(current + 1) mod 4\<close>; an accepted discard on an empty wall
  leaves the game in the state \<open>PLAYING\<close>, records no winner and no end time, and passes
  the turn to the next seat.
\<close>

theorem wall_exhausted_round_continues:
  assumes "deck g = []"
  shows "nextPlayer g = (None, g\<lparr>currentPlayer := (currentPlayer g + 1) mod 4\<rparr>)
    \<and> (\<forall>now pos cardId g'. playerDiscard now pos cardId g = (None, g') \<longrightarrow>
          state g' = PLAYING \<and> winner g' = winner g \<and> endTime g' = endTime g \<and> deck g' = []
          \<and> currentPlayer g' = (currentPlayer g + 1) mod 4)"
proof -
  have np: "\<And>h. deck h = [] \<Longrightarrow> nextPlayer h = (None, h\<lparr>currentPlayer := (currentPlayer h + 1) mod 4\<rparr>)"
    by (simp add: nextPlayer_def hasCards_def Let_def)
  {
    fix now pos cardId g'
    assume a: "playerDiscard now pos cardId g = (None, g')"
    from a obtain p where p: "playerAt g pos = Some p" and c: "cardId \<in> set (handCards p)"
      and cur: "currentPlayer g = pos" and st: "state g = PLAYING"
      by (auto simp: playerDiscard_def split: if_splits option.splits)
    let ?g1 = "g\<lparr>players := (players g)[pos := p\<lparr>handCards := remove1 cardId (handCards p),
                   discardedCards := discardedCards p @ [cardId]\<rparr>], lastDiscardedCard := Some cardId,
               lastAction := Some DISCARD,
               gameHistory := gameHistory g @
                 [\<lparr>hplayer = pos, haction = DISCARD, hcards = [cardId], htimestamp = now\<rparr>]\<rparr>"
    let ?g2 = "checkPlayerActions cardId ?g1"
    from a p c cur st have n: "nextPlayer ?g2 = (None, g')"
      by (auto simp: playerDiscard_def Let_def split: if_splits)
    have "deck ?g2 = []" using assms by (simp add: checkPlayerActions_fields)
    from np[OF this] n have "g' = ?g2\<lparr>currentPlayer := (currentPlayer ?g2 + 1) mod 4\<rparr>" by simp
    then have "state g' = PLAYING \<and> winner g' = winner g \<and> endTime g' = endTime g \<and> deck g' = []
          \<and> currentPlayer g' = (currentPlayer g + 1) mod 4"
      using st assms cur by (simp add: checkPlayerActions_def)
  }
  with np[OF assms] show ?thesis by blast
qed

theorem wall_exhausted_round_continues_witness:
  "deck scenarioWallEmpty = []
   \<and> nextPlayer scenarioWallEmpty = (None, scenarioWallEmpty\<lparr>currentPlayer := 2\<rparr>)
   \<and> state (scenarioWallEmpty\<lparr>currentPlayer := 2\<rparr>) = PLAYING
   \<and> winner (scenarioWallEmpty\<lparr>currentPlayer := 2\<rparr>) = None"
proof -
  have e: "deck scenarioWallEmpty = []" by (simp add: scenarioWallEmpty_def)
  have c: "currentPlayer scenarioWallEmpty = 1" "state scenarioWallEmpty = PLAYING" "winner scenarioWallEmpty = None"
    by (simp_all add: scenarioWallEmpty_def scenarioAfterDiscard_def scenarioDealt_def emptyTable_def)
  from wall_exhausted_round_continues[OF e] e c show ?thesis by simp
qed

text \<open>
  The claim fails as stated: on a table whose wall is empty, the discard of seat 1 is
  accepted and the game is still \<open>PLAYING\<close> afterwards, with no winner; the turn is at
  seat 2. Such a table is met in play: by \<open>empty_wall_reachable\<close>, accepted discards
  from the dealt state lead to a state with an empty wall, still \<open>PLAYING\<close>, where the
  next discard is accepted.
\<close>

theorem wall_exhausted_still_playing:
  "deck scenarioWallEmpty = [] \<and> state scenarioWallEmpty = PLAYING \<and> winner scenarioWallEmpty = None
   \<and> fst (playerDiscard 2 1 ''tong_4'' scenarioWallEmpty) = None
   \<and> state (snd (playerDiscard 2 1 ''tong_4'' scenarioWallEmpty)) = PLAYING
   \<and> winner (snd (playerDiscard 2 1 ''tong_4'' scenarioWallEmpty)) = None
   \<and> currentPlayer (snd (playerDiscard 2 1 ''tong_4'' scenarioWallEmpty)) = 2"
  using scenarioWallEmpty_discard
  by (simp add: scenarioWallEmpty_def scenarioAfterDiscard_def scenarioDealt_def emptyTable_def)

subsection \<open>C7: the snapshot\<close>



subsection \<open>C8: turn order\<close>



subsection \<open>C9: rejected discards\<close>

text \<open>
  Claim C9. A discard made while the game is not \<open>PLAYING\<close>, by a seat that is not the
  current one, or of a tile that is not in the seat's hand (or by a seat that does not
  exist) throws, and the game is exactly as before; through the controller, the request
  fails with status 500 and the stored game is unchanged.
\<close>

theorem discard_rejected_state_unchanged:
  assumes "state g \<noteq> PLAYING \<or> currentPlayer g \<noteq> playerPosition
           \<or> (case playerAt g playerPosition of None \<Rightarrow> True | Some p \<Rightarrow> cardId \<notin> set (handCards p))"
  shows "(\<exists>e. playerDiscard now playerPosition cardId g = (Some e, g))
         \<and> (\<forall>uid p. findPlayer g uid = Some p \<and> position p = playerPosition
               \<longrightarrow> GameController_playerDiscard now g uid cardId = (Failure 500, g))"
proof -
  have rej: "\<And>h. state h \<noteq> PLAYING \<or> currentPlayer h \<noteq> playerPosition
           \<or> (case playerAt h playerPosition of None \<Rightarrow> True | Some p \<Rightarrow> cardId \<notin> set (handCards p))
        \<Longrightarrow> \<exists>e. playerDiscard now playerPosition cardId h = (Some e, h)"
    by (auto simp: playerDiscard_def split: option.splits)
  have same: "state (newGame g) = state g" "currentPlayer (newGame g) = currentPlayer g"
    "playerAt (newGame g) playerPosition = playerAt g playerPosition"
    by (simp_all add: newGame_def playerAt_def)
  from assms have "\<exists>e. playerDiscard now playerPosition cardId (newGame g) = (Some e, newGame g)"
    by (intro rej) (simp add: same)
  then have "\<forall>uid p. findPlayer g uid = Some p \<and> position p = playerPosition
               \<longrightarrow> GameController_playerDiscard now g uid cardId = (Failure 500, g)"
    by (auto simp: GameController_playerDiscard_def)
  with rej[OF assms] show ?thesis by blast
qed

theorem discard_rejected_state_unchanged_witness:
  "currentPlayer scenarioDealt \<noteq> 2
   \<and> playerDiscard 7 2 ''tong_5'' scenarioDealt = (Some NotPlayersTurn, scenarioDealt)
   \<and> findPlayer scenarioDealt 103 = Some (players scenarioDealt ! 2)
   \<and> position (players scenarioDealt ! 2) = 2
   \<and> GameController_playerDiscard 7 scenarioDealt 103 ''tong_5'' = (Failure 500, scenarioDealt)"
proof -
  have c: "currentPlayer scenarioDealt \<noteq> 2" by (simp add: scenarioDealt_def emptyTable_def)
  have f: "findPlayer scenarioDealt 103 = Some (players scenarioDealt ! 2)"
    "position (players scenarioDealt ! 2) = 2"
    by (simp_all add: findPlayer_def scenarioDealt_def)
  have e: "playerDiscard 7 2 ''tong_5'' scenarioDealt = (Some NotPlayersTurn, scenarioDealt)"
    using c by (simp add: playerDiscard_def scenarioDealt_def emptyTable_def)
  from discard_rejected_state_unchanged[of scenarioDealt 2 "''tong_5''" 7] c f e
  show ?thesis by simp
qed

subsection \<open>C10: card identity\<close>

text \<open>
  Claim C10. Every card of the 144-tile deck is rebuilt from its id by \<open>getCardById\<close>
  and from its JSON form by \<open>fromJSON\<close>, the rebuilt card \<open>equals\<close> the original, and
  two cards of the deck are \<open>equals\<close> exactly when their id strings are the same: the four
  copies of a kind share one id.
\<close>

theorem card_identity_roundtrip:
  "length initializeDeck = 144
   \<and> (\<forall>c \<in> set initializeDeck.
     getCardById (generateId c) = c \<and> fromJSON (toJSON c) = c
     \<and> equals (getCardById (generateId c)) c \<and> equals (fromJSON (toJSON c)) c
     \<and> (\<forall>d \<in> set initializeDeck. equals c d \<longleftrightarrow> generateId c = generateId d))"
proof (intro ballI conjI)
  show "length initializeDeck = 144" by (rule length_initializeDeck)
next
  fix c assume c: "c \<in> set initializeDeck"
  show rt: "getCardById (generateId c) = c" by (rule deck_roundtrip[OF c])
  show js: "fromJSON (toJSON c) = c" by (simp add: fromJSON_def toJSON_def Card_def)
  from deck_equals[OF c c] show "equals (getCardById (generateId c)) c" by (simp add: rt)
  from deck_equals[OF c c] show "equals (fromJSON (toJSON c)) c" by (simp add: js)
  fix d assume d: "d \<in> set initializeDeck"
  have "generateId c = generateId d \<Longrightarrow> c = d"
    using deck_roundtrip[OF c] deck_roundtrip[OF d] by metis
  then show "equals c d \<longleftrightarrow> generateId c = generateId d"
    using deck_equals[OF c d] by auto
qed

theorem card_identity_roundtrip_witness:
  "getCardById (generateId (Card WAN (Num 1))) = Card WAN (Num 1)
   \<and> generateId (Card WAN (Num 1)) = ''wan_1''
   \<and> fromJSON (toJSON (Card WAN (Num 1))) = Card WAN (Num 1)
   \<and> initializeDeck ! 0 = Card WAN (Num 1) \<and> initializeDeck ! 3 = Card WAN (Num 1)
   \<and> equals (initializeDeck ! 0) (initializeDeck ! 3)
   \<and> \<not> equals (Card WAN (Num 1)) (Card ZI (Num 7))
   \<and> generateId (Card ZI (Num 7)) = ''zi_7''"
proof -
  have m: "Card WAN (Num 1) \<in> set initializeDeck" "Card ZI (Num 7) \<in> set initializeDeck"
    by code_simp+
  have ids: "generateId (Card WAN (Num 1)) = ''wan_1''" "generateId (Card ZI (Num 7)) = ''zi_7''"
    by (simp_all add: generateId_def Card_def WAN_def ZI_def natToString.simps)
  have nth: "initializeDeck ! 0 = Card WAN (Num 1)" "initializeDeck ! 3 = Card WAN (Num 1)"
    by code_simp+
  from card_identity_roundtrip m ids nth show ?thesis by auto
qed

end
